theory Spec2Isabelle
  imports Main
begin

section \<open>The curry transformer of ts-curry-utility\<close>

text \<open>
  The whole functional core of the repository is the function \<^verbatim>\<open>curry\<close> of
  \<^verbatim>\<open>src/index.ts\<close>:
  \<^verbatim>\<open>
  function curry<F extends Function>(fn: F): CurriedFunction<F> {
    const arity = fn.length; // Number of expected arguments

    function curried(...args: any[]): any {
      if (args.length >= arity) {
        return fn(...args);
      } else {
        return (...nextArgs: any[]) => curried(...args.concat(nextArgs));
      }
    }

    return curried as CurriedFunction<F>;
  }
  \<close>
  The type annotations are erased when the program runs; what runs is the JavaScript
  above. The model follows the running code.
\<close>

subsection \<open>Code that runs\<close>

text \<open>
  An error thrown while the program runs: the engine's TypeError (a property read on
  \<^verbatim>\<open>null\<close> or \<^verbatim>\<open>undefined\<close>, a call of a value that is not callable, the
  conversion of a Symbol to a number), or any other value thrown by code that is not
  the transformer's, named by a description.
\<close>

datatype error = TypeError | Thrown string

text \<open>
  A piece of code run in a world state \<open>'s\<close>: it returns a value or throws, and leaves a
  new state; \<open>None\<close> when it never returns.
\<close>

type_synonym ('s, 'a) result = "((error + 'a) \<times> 's) option"

type_synonym ('s, 'a) effect = "'s \<Rightarrow> ('s, 'a) result"

text \<open>
  A source function is an arbitrary piece of code: called with a list of argument values
  in a world state \<open>'s\<close> it may change the state and return a value of type \<open>'r\<close>
  (which may itself stand for a thrown exception of the function), or never return
  (\<open>None\<close>). It is called with however many values the caller passes: JavaScript binds
  the declared parameters positionally and hands the rest to a rest parameter, if any.
\<close>

type_synonym ('v, 's, 'r) behaviour = "'v list \<Rightarrow> 's \<Rightarrow> ('r \<times> 's) option"

subsection \<open>The value \<^verbatim>\<open>arity\<close>\<close>

text \<open>
  \<^verbatim>\<open>arity\<close> is whatever \<^verbatim>\<open>fn.length\<close> was, and the code uses it in one place, the
  test \<^verbatim>\<open>args.length >= arity\<close>, whose left side is a non-negative integer \<open>k\<close>. A
  primitive value is classified by what this test does:
  \<^item> \<open>Reached n\<close>: the test holds exactly when \<open>n \<le> k\<close>. This is the number \<open>n\<close>
    itself (the \<^verbatim>\<open>length\<close> of a function, a string, an array), and every value that
    converts to a number \<open>v\<close> whose least integer bound \<open>max 0 \<lceil>v\<rceil>\<close> is \<open>n\<close>:
    \<^verbatim>\<open>null\<close>, \<^verbatim>\<open>false\<close>, \<^verbatim>\<open>-1\<close> and \<^verbatim>\<open>""\<close> for \<open>n = 0\<close>, \<^verbatim>\<open>2.5\<close> for \<open>n = 3\<close>,
    \<^verbatim>\<open>"2"\<close> and \<^verbatim>\<open>2n\<close> for \<open>n = 2\<close>;
  \<^item> \<open>Unreached\<close>: the test never holds: \<^verbatim>\<open>undefined\<close> and every other value that
    converts to NaN, and \<^verbatim>\<open>Infinity\<close>;
  \<^item> \<open>Uncomparable\<close>: a Symbol, whose conversion to a number throws a TypeError.
\<close>

datatype primitive = Reached nat | Unreached | Uncomparable

fun prim_ge :: "nat \<Rightarrow> primitive \<Rightarrow> error + bool" where
  "prim_ge k (Reached n) = Inr (n \<le> k)"
| "prim_ge k Unreached = Inr False"
| "prim_ge k Uncomparable = Inl TypeError"

text \<open>
  A value that is an object is converted to a primitive each time the test is made, and
  the conversion may run code of the object (\<^verbatim>\<open>valueOf\<close>, \<^verbatim>\<open>toString\<close>): \<open>Obj conv\<close>
  is an object whose conversion does what \<open>conv\<close> does.
\<close>

datatype 's arity = Prim primitive | Obj "('s, primitive) effect"

text \<open>\<^verbatim>\<open>args.length >= arity\<close>, with \<open>k\<close> the length of \<^verbatim>\<open>args\<close>.\<close>

fun length_ge :: "nat \<Rightarrow> 's arity \<Rightarrow> ('s, bool) effect" where
  "length_ge k (Prim p) s = Some (prim_ge k p, s)"
| "length_ge k (Obj conv) s =
     (case conv s of
        None \<Rightarrow> None
      | Some (Inl e, s') \<Rightarrow> Some (Inl e, s')
      | Some (Inr p, s') \<Rightarrow> Some (prim_ge k p, s'))"

subsection \<open>Values supplied as \<^verbatim>\<open>fn\<close>\<close>

text \<open>
  The code does two things with \<^verbatim>\<open>fn\<close>: it reads \<^verbatim>\<open>fn.length\<close> and it calls
  \<^verbatim>\<open>fn(...args)\<close>. A value is what these two operations do on it:
  \<^item> \<open>Function n body\<close>: a function declared with \<open>n\<close> parameters before the first
    default or rest parameter (its \<^verbatim>\<open>length\<close>) and the behaviour \<open>body\<close>;
  \<^item> \<open>NonCallable read\<close>: a value that is not callable, on which reading
    \<^verbatim>\<open>length\<close> does what \<open>read\<close> does. The read throws a TypeError on \<^verbatim>\<open>null\<close>
    and \<^verbatim>\<open>undefined\<close>, returns a stored value on a string, an array, a number or a
    plain object, and runs the code of a getter or of a proxy on other objects.
\<close>

datatype ('v, 's, 'r) callee =
    Function nat "('v, 's, 'r) behaviour"
  | NonCallable "('s, 's arity) effect"

text \<open>\<^verbatim>\<open>fn.length\<close>.\<close>

fun fn_length :: "('v, 's, 'r) callee \<Rightarrow> ('s, 's arity) effect" where
  "fn_length (Function n body) s = Some (Inr (Prim (Reached n)), s)"
| "fn_length (NonCallable read) s = read s"

text \<open>
  \<^verbatim>\<open>fn(...args)\<close>: the behaviour of a function, a TypeError for anything that is not
  callable.
\<close>

fun call :: "('v, 's, 'r) callee \<Rightarrow> 'v list \<Rightarrow> ('s, 'r) effect" where
  "call (Function n body) args s =
     (case body args s of None \<Rightarrow> None | Some (r, s') \<Rightarrow> Some (Inr r, s'))"
| "call (NonCallable read) args s = Some (Inl TypeError, s)"

text \<open>Some values that are not callable.\<close>

definition nullish :: "('v, 's, 'r) callee" where
  \<comment> \<open>\<^verbatim>\<open>null\<close> or \<^verbatim>\<open>undefined\<close>\<close>
  "nullish = NonCallable (\<lambda>s. Some (Inl TypeError, s))"

definition with_length :: "'s arity \<Rightarrow> ('v, 's, 'r) callee" where
  \<comment> \<open>a value whose \<^verbatim>\<open>length\<close> is stored: \<^verbatim>\<open>"ab"\<close> is \<open>with_length (Prim (Reached 2))\<close>,
     the number 5 and \<^verbatim>\<open>{}\<close> are \<open>with_length (Prim Unreached)\<close>\<close>
  "with_length a = NonCallable (\<lambda>s. Some (Inr a, s))"

definition throwing_getter :: "string \<Rightarrow> ('v, 's, 'r) callee" where
  \<comment> \<open>\<^verbatim>\<open>{ get length() { throw e } }\<close>\<close>
  "throwing_getter e = NonCallable (\<lambda>s. Some (Inl (Thrown e), s))"

subsection \<open>Stages\<close>

text \<open>
  A stage is one of the two function values the code creates, with the variables it
  closes over:
  \<^item> \<open>Root fn arity\<close> is the function \<^verbatim>\<open>curried\<close> of one call of \<^verbatim>\<open>curry\<close>;
  \<^item> \<open>Arrow fn arity args\<close> is the arrow function
    \<^verbatim>\<open>(...nextArgs) => curried(...args.concat(nextArgs))\<close> created by a call of
    \<^verbatim>\<open>curried\<close> with the arguments \<open>args\<close>.
  \<^verbatim>\<open>concat\<close> builds a new array and leaves \<^verbatim>\<open>args\<close> as it is, every rest
  parameter is bound to a new array, and a spread passes the elements, not the array:
  no array is ever written after its creation, so the arrays are HOL lists here. The
  model over a store of arrays, below, does without this argument.
\<close>

datatype ('v, 's, 'r) stage =
    Root "('v, 's, 'r) callee" "'s arity"
  | Arrow "('v, 's, 'r) callee" "'s arity" "'v list"

fun stage_fn :: "('v, 's, 'r) stage \<Rightarrow> ('v, 's, 'r) callee" where
  "stage_fn (Root fn arity) = fn"
| "stage_fn (Arrow fn arity args) = fn"

fun stage_arity :: "('v, 's, 'r) stage \<Rightarrow> 's arity" where
  "stage_arity (Root fn arity) = arity"
| "stage_arity (Arrow fn arity args) = arity"

text \<open>The arguments accumulated so far: none for the root.\<close>

fun accumulated :: "('v, 's, 'r) stage \<Rightarrow> 'v list" where
  "accumulated (Root fn arity) = []"
| "accumulated (Arrow fn arity args) = args"

text \<open>What a stage returns: the source function's result, or the next stage.\<close>

datatype ('v, 's, 'r) outcome =
    Result 'r
  | Next "('v, 's, 'r) stage"

type_synonym ('v, 's, 'r) completion = "('s, ('v, 's, 'r) outcome) result"

text \<open>\<^verbatim>\<open>return fn(...args)\<close>: whatever the call does is what the stage does.\<close>

fun returning :: "('s, 'r) result \<Rightarrow> ('v, 's, 'r) completion" where
  "returning None = None"
| "returning (Some (Inl e, s')) = Some (Inl e, s')"
| "returning (Some (Inr r, s')) = Some (Inr (Result r), s')"

definition curried ::
  "('v, 's, 'r) callee \<Rightarrow> 's arity \<Rightarrow> 'v list \<Rightarrow> 's \<Rightarrow> ('v, 's, 'r) completion" where
  "curried fn arity args s =
     (case length_ge (length args) arity s of
        None \<Rightarrow> None
      | Some (Inl e, s') \<Rightarrow> Some (Inl e, s')
      | Some (Inr enough, s') \<Rightarrow>
          if enough then returning (call fn args s')
          else Some (Inr (Next (Arrow fn arity args)), s'))"

text \<open>Calling a stage with the arguments \<open>xs\<close>.\<close>

fun invoke :: "('v, 's, 'r) stage \<Rightarrow> 'v list \<Rightarrow> 's \<Rightarrow> ('v, 's, 'r) completion" where
  "invoke (Root fn arity) xs s = curried fn arity xs s"
| "invoke (Arrow fn arity args) nextArgs s = curried fn arity (args @ nextArgs) s"

definition curry :: "('v, 's, 'r) callee \<Rightarrow> ('s, ('v, 's, 'r) stage) effect" where
  "curry fn s =
     (case fn_length fn s of
        None \<Rightarrow> None
      | Some (Inl e, s') \<Rightarrow> Some (Inl e, s')
      | Some (Inr arity, s') \<Rightarrow> Some (Inr (Root fn arity), s'))"

text \<open>
  An expression \<^verbatim>\<open>st(b1)(b2)...(bk)\<close>: the batches are supplied to successive stages.
  The chain ends when a call throws or returns the source function's result; the
  batches that are left would then be applied to that result, which is no longer the
  curry transformer's code, so they are returned with it.
\<close>

fun chain ::
  "('v, 's, 'r) stage \<Rightarrow> 'v list list \<Rightarrow> 's \<Rightarrow>
     (((error + ('v, 's, 'r) outcome) \<times> 'v list list) \<times> 's) option" where
  "chain st [] s = Some ((Inr (Next st), []), s)"
| "chain st (b # bs) s =
     (case invoke st b s of
        None \<Rightarrow> None
      | Some (Inl e, s') \<Rightarrow> Some ((Inl e, bs), s')
      | Some (Inr (Result r), s') \<Rightarrow> Some ((Inr (Result r), bs), s')
      | Some (Inr (Next st'), s') \<Rightarrow> chain st' bs s')"

text \<open>A chain that ends with the source function's call and has consumed every batch.\<close>

fun finished ::
  "('s, 'r) result \<Rightarrow>
     (((error + ('v, 's, 'r) outcome) \<times> 'v list list) \<times> 's) option" where
  "finished None = None"
| "finished (Some (Inl e, s')) = Some ((Inl e, []), s')"
| "finished (Some (Inr r, s')) = Some ((Inr (Result r), []), s')"

subsection \<open>The same code over a store of arrays\<close>

text \<open>
  In the running program \<^verbatim>\<open>args\<close> and \<^verbatim>\<open>nextArgs\<close> are references to array
  objects, and an arrow function closes over the reference, not over a copy. To state
  that no call of a stage disturbs the sequence another call path relies on, the code
  is modelled a second time with the arrays in a store: a rest parameter allocates a
  new array holding the values passed, \<^verbatim>\<open>concat\<close> reads both arrays and allocates
  the result, a spread reads the elements. The source function receives the elements and
  its own state, never a reference to one of these arrays, and neither does the code
  that reads \<^verbatim>\<open>length\<close> or converts \<^verbatim>\<open>arity\<close>.
\<close>

record 'v store =
  arrays :: "nat \<Rightarrow> 'v list"
  fresh :: nat

definition alloc :: "'v list \<Rightarrow> 'v store \<Rightarrow> nat \<times> 'v store" where
  "alloc xs h = (fresh h, \<lparr>arrays = (arrays h)(fresh h := xs), fresh = Suc (fresh h)\<rparr>)"

datatype ('v, 's, 'r) hstage =
    HRoot "('v, 's, 'r) callee" "'s arity"
  | HArrow "('v, 's, 'r) callee" "'s arity" nat

datatype ('v, 's, 'r) houtcome =
    HResult 'r
  | HNext "('v, 's, 'r) hstage"

type_synonym ('v, 's, 'r) hcompletion =
  "((error + ('v, 's, 'r) houtcome) \<times> 'v store \<times> 's) option"

fun returning_h :: "'v store \<Rightarrow> ('s, 'r) result \<Rightarrow> ('v, 's, 'r) hcompletion" where
  "returning_h h None = None"
| "returning_h h (Some (Inl e, s')) = Some (Inl e, h, s')"
| "returning_h h (Some (Inr r, s')) = Some (Inr (HResult r), h, s')"

text \<open>\<^verbatim>\<open>curried\<close>, called with the values \<open>vs\<close>: \<open>args\<close> is the new array of the rest parameter.\<close>

definition curried_h ::
  "('v, 's, 'r) callee \<Rightarrow> 's arity \<Rightarrow> 'v list \<Rightarrow> 'v store \<Rightarrow> 's \<Rightarrow> ('v, 's, 'r) hcompletion" where
  "curried_h fn arity vs h s =
     (case alloc vs h of (args, h1) \<Rightarrow>
        (case length_ge (length (arrays h1 args)) arity s of
           None \<Rightarrow> None
         | Some (Inl e, s') \<Rightarrow> Some (Inl e, h1, s')
         | Some (Inr enough, s') \<Rightarrow>
             if enough then returning_h h1 (call fn (arrays h1 args) s')
             else Some (Inr (HNext (HArrow fn arity args)), h1, s')))"

text \<open>
  The arrow function, called with the values \<open>vs\<close>: \<open>nextArgs\<close> is the new array of its
  rest parameter, \<open>both\<close> the array \<^verbatim>\<open>args.concat(nextArgs)\<close>, whose elements are
  spread into the call of \<^verbatim>\<open>curried\<close>.
\<close>

fun invoke_h ::
  "('v, 's, 'r) hstage \<Rightarrow> 'v list \<Rightarrow> 'v store \<Rightarrow> 's \<Rightarrow> ('v, 's, 'r) hcompletion" where
  "invoke_h (HRoot fn arity) vs h s = curried_h fn arity vs h s"
| "invoke_h (HArrow fn arity args) vs h s =
     (case alloc vs h of (nextArgs, h1) \<Rightarrow>
        (case alloc (arrays h1 args @ arrays h1 nextArgs) h1 of (both, h2) \<Rightarrow>
           curried_h fn arity (arrays h2 both) h2 s))"

definition curry_h :: "('v, 's, 'r) callee \<Rightarrow> ('s, ('v, 's, 'r) hstage) effect" where
  "curry_h fn s =
     (case fn_length fn s of
        None \<Rightarrow> None
      | Some (Inl e, s') \<Rightarrow> Some (Inl e, s')
      | Some (Inr arity, s') \<Rightarrow> Some (Inr (HRoot fn arity), s'))"

text \<open>Reading a stage of the store model: the list its reference holds in the store \<open>h\<close>.\<close>

fun stage_in :: "'v store \<Rightarrow> ('v, 's, 'r) hstage \<Rightarrow> ('v, 's, 'r) stage" where
  "stage_in h (HRoot fn arity) = Root fn arity"
| "stage_in h (HArrow fn arity args) = Arrow fn arity (arrays h args)"

fun outcome_in :: "'v store \<Rightarrow> ('v, 's, 'r) houtcome \<Rightarrow> ('v, 's, 'r) outcome" where
  "outcome_in h (HResult r) = Result r"
| "outcome_in h (HNext st) = Next (stage_in h st)"

fun completion_of :: "('v, 's, 'r) hcompletion \<Rightarrow> ('v, 's, 'r) completion" where
  "completion_of None = None"
| "completion_of (Some (Inl e, h, s)) = Some (Inl e, s)"
| "completion_of (Some (Inr out, h, s)) = Some (Inr (outcome_in h out), s)"

text \<open>The store before any call: no array has been allocated.\<close>

definition empty_store :: "'v store" where
  "empty_store = \<lparr>arrays = (\<lambda>a. []), fresh = 0\<rparr>"

text \<open>The reference a stage holds points to an array that has been allocated.\<close>

fun allocated :: "'v store \<Rightarrow> ('v, 's, 'r) hstage \<Rightarrow> bool" where
  "allocated h (HRoot fn arity) = True"
| "allocated h (HArrow fn arity args) = (args < fresh h)"

text \<open>
  What a call that returned or threw reads as in a later store \<open>h'\<close>: the stage it
  returned, if any, is read there.
\<close>

fun result_in :: "'v store \<Rightarrow> error + ('v, 's, 'r) houtcome \<Rightarrow> error + ('v, 's, 'r) outcome" where
  "result_in h' (Inl e) = Inl e"
| "result_in h' (Inr out) = Inr (outcome_in h' out)"

subsection \<open>Observing the calls of the source function\<close>

text \<open>
  A source function that also records, in a log kept beside its state, the argument
  list of every call made to it.
\<close>

definition logged :: "('v, 's, 'r) behaviour \<Rightarrow> ('v, 's \<times> 'v list list, 'r) behaviour" where
  "logged body args w =
     (case w of (s, log) \<Rightarrow>
        (case body args s of None \<Rightarrow> None | Some (r, s') \<Rightarrow> Some (r, s', log @ [args])))"

subsection \<open>Source functions of the examples\<close>

text \<open>
  A JavaScript number, as far as the examples need it: an integer, or NaN (what the
  sum with a missing argument is).
\<close>

datatype number = Num int | NaN

text \<open>
  \<^verbatim>\<open>const addThreeNumbers = (a, b, c) => a + b + c\<close>, on integers. The program adds
  double-precision numbers, and the two agree as long as the arguments and the sums
  are integers of magnitude below \<open>2 ^ 53\<close>; the function is used below on such
  arguments only, as an example, and no general statement depends on it.
\<close>

fun addThreeNumbers :: "(int, 's, number) behaviour" where
  "addThreeNumbers (a # b # c # rest) s = Some (Num (a + b + c), s)"
| "addThreeNumbers args s = Some (NaN, s)"

text \<open>The function \<^verbatim>\<open>() => 42\<close>, of arity 0.\<close>

definition fortyTwo :: "('v, 's, number) behaviour" where
  "fortyTwo args s = Some (Num 42, s)"

text \<open>
  A source function with a rest parameter, as a caller may write it:
  \<^verbatim>\<open>(a, ...rest) => rest.length\<close>. It has one declared parameter before the rest
  parameter, so its \<^verbatim>\<open>length\<close> is 1.
\<close>

definition countRest :: "('v, 's, number) behaviour" where
  "countRest args s = Some (Num (int (length (drop 1 args))), s)"

text \<open>One argument per call: \<^verbatim>\<open>st(a1)(a2)...(an)\<close>.\<close>

definition one_at_a_time :: "'v list \<Rightarrow> 'v list list" where
  "one_at_a_time args = map (\<lambda>a. [a]) args"

subsection \<open>Basic facts\<close>

lemma invoke_curried:
  "invoke st xs s = curried (stage_fn st) (stage_arity st) (accumulated st @ xs) s"
  by (cases st) simp_all

text \<open>
  The length of a function is the number of its parameters, so the test of \<^verbatim>\<open>curried\<close>
  has no effect and \<^verbatim>\<open>curried\<close> is its two branches.
\<close>

lemma curried_Reached:
  "curried fn (Prim (Reached n)) args s =
     (if n \<le> length args then returning (call fn args s)
      else Some (Inr (Next (Arrow fn (Prim (Reached n)) args)), s))"
  by (simp add: curried_def)

lemma curry_Function:
  "curry (Function n body) s = Some (Inr (Root (Function n body) (Prim (Reached n))), s)"
  by (simp add: curry_def)

text \<open>The two branches of \<^verbatim>\<open>curried\<close>, seen from the stage that is called.\<close>

lemma invoke_reaches:
  assumes "stage_arity st = Prim (Reached n)" and "n \<le> length (accumulated st @ xs)"
  shows "invoke st xs s = returning (call (stage_fn st) (accumulated st @ xs) s)"
  using assms by (simp add: invoke_curried curried_Reached)

lemma invoke_short:
  assumes "stage_arity st = Prim (Reached n)" and "length (accumulated st @ xs) < n"
  shows "invoke st xs s =
    Some (Inr (Next (Arrow (stage_fn st) (Prim (Reached n)) (accumulated st @ xs))), s)"
  using assms by (simp add: invoke_curried curried_Reached)

text \<open>
  The stages of one curried function: the root holds the function and what reading its
  length gave, and every stage a call returns holds the same function and the same
  arity, with the arguments of the call added to the sequence.
\<close>

lemma curry_root:
  assumes "curry fn s = Some (Inr st, s')"
  shows "stage_fn st = fn \<and> fn_length fn s = Some (Inr (stage_arity st), s')
    \<and> accumulated st = []"
  using assms by (auto simp add: curry_def split: option.splits sum.splits)

lemma returning_no_stage: "returning c \<noteq> Some (Inr (Next st'), s')"
  by (cases c rule: returning.cases) simp_all

lemma invoke_Next:
  assumes "invoke st xs s = Some (Inr (Next st'), s')"
  shows "stage_fn st' = stage_fn st \<and> stage_arity st' = stage_arity st
    \<and> accumulated st' = accumulated st @ xs"
  using assms
  by (auto simp add: invoke_curried curried_def returning_no_stage
      split: option.splits sum.splits if_splits)

text \<open>
  The groupings of the usage examples: \<^verbatim>\<open>curriedAdd(1)(2)(3)\<close>,
  \<^verbatim>\<open>curriedAdd(1, 2)(3)\<close>, \<^verbatim>\<open>curriedAdd(1)(2, 3)\<close> and
  \<^verbatim>\<open>curriedAdd(1, 2, 3)\<close> are all 6.
\<close>

lemma addThreeNumbers_groupings:
  "chain (Root (Function 3 addThreeNumbers) (Prim (Reached 3))) [[1], [2], [3]] () =
     Some ((Inr (Result (Num 6)), []), ())"
  "chain (Root (Function 3 addThreeNumbers) (Prim (Reached 3))) [[1, 2], [3]] () =
     Some ((Inr (Result (Num 6)), []), ())"
  "chain (Root (Function 3 addThreeNumbers) (Prim (Reached 3))) [[1], [2, 3]] () =
     Some ((Inr (Result (Num 6)), []), ())"
  "chain (Root (Function 3 addThreeNumbers) (Prim (Reached 3))) [[1, 2, 3]] () =
     Some ((Inr (Result (Num 6)), []), ())"
  by (simp_all add: curried_Reached)

lemma concat_one_at_a_time: "concat (one_at_a_time args) = args"
  by (induction args) (simp_all add: one_at_a_time_def)

text \<open>
  A chain of non-empty batches that together bring the accumulated sequence to exactly
  the arity: every batch but the last returns the next stage, the last one calls the
  source function with the whole sequence.
\<close>

lemma chain_batches:
  assumes "stage_arity st = Prim (Reached n)"
    and "\<forall>b \<in> set bs. b \<noteq> []"
    and "bs \<noteq> []"
    and "length (accumulated st @ concat bs) = n"
  shows "chain st bs s = finished (call (stage_fn st) (accumulated st @ concat bs) s)"
  using assms
proof (induction bs arbitrary: st s)
  case Nil
  then show ?case by simp
next
  case (Cons b bs)
  show ?case
  proof (cases "bs = []")
    case True
    with Cons.prems have "n \<le> length (accumulated st @ b)"
      by simp
    with Cons.prems(1) have
      "invoke st b s = returning (call (stage_fn st) (accumulated st @ b) s)"
      by (rule invoke_reaches)
    with True show ?thesis
      by (cases "call (stage_fn st) (accumulated st @ b) s" rule: returning.cases) simp_all
  next
    case False
    then obtain c cs where bs: "bs = c # cs"
      by (cases bs) auto
    with Cons.prems have "c \<noteq> []"
      by simp
    with bs Cons.prems have "length (accumulated st @ b) < n"
      by (cases c) auto
    with Cons.prems(1) have inv: "invoke st b s =
        Some (Inr (Next (Arrow (stage_fn st) (Prim (Reached n)) (accumulated st @ b))), s)"
      by (rule invoke_short)
    let ?next = "Arrow (stage_fn st) (Prim (Reached n)) (accumulated st @ b)"
    have "chain ?next bs s =
        finished (call (stage_fn ?next) (accumulated ?next @ concat bs) s)"
      using Cons.prems False by (intro Cons.IH) simp_all
    with inv show ?thesis
      by simp
  qed
qed

subsection \<open>The store model against the list model\<close>

text \<open>
  A call in the store model does what the call in the list model does, when the stage is
  read in the store before the call and the outcome in the store after it.
\<close>

lemma completion_of_returning_h: "completion_of (returning_h h c) = returning c"
  by (cases c rule: returning.cases) simp_all

lemma curried_h_simulates: "completion_of (curried_h fn arity vs h s) = curried fn arity vs s"
  by (simp add: curried_h_def curried_def alloc_def completion_of_returning_h
      split: option.splits sum.splits)

lemma invoke_h_simulates:
  assumes "allocated h st"
  shows "completion_of (invoke_h st vs h s) = invoke (stage_in h st) vs s"
proof (cases st)
  case (HRoot fn arity)
  then show ?thesis
    by (simp add: curried_h_simulates)
next
  case (HArrow fn arity args)
  with assms have "args \<noteq> fresh h"
    by simp
  with HArrow show ?thesis
    by (simp add: curried_h_simulates alloc_def)
qed

text \<open>A call only allocates: every array that existed before it is left as it was.\<close>

lemma returning_h_store:
  assumes "returning_h h c = Some (out, h', s')"
  shows "h' = h"
  using assms by (cases c rule: returning.cases) simp_all

lemma returning_h_no_stage: "returning_h h c \<noteq> Some (Inr (HNext st'), h', s')"
  by (cases c rule: returning.cases) simp_all

lemma curried_h_store:
  assumes "curried_h fn arity vs h s = Some (out, h', s')"
  shows "h' = snd (alloc vs h)"
  using assms
  by (auto simp add: curried_h_def alloc_def
      split: option.splits sum.splits if_splits dest: returning_h_store)

lemma curried_h_frame:
  assumes "curried_h fn arity vs h s = Some (out, h', s')"
  shows "fresh h' = Suc (fresh h) \<and> (\<forall>a. a \<noteq> fresh h \<longrightarrow> arrays h' a = arrays h a)"
  using curried_h_store [OF assms] by (simp add: alloc_def)

lemma invoke_h_frame:
  assumes "invoke_h st vs h s = Some (out, h', s')"
  shows "fresh h \<le> fresh h' \<and> (\<forall>a. a < fresh h \<longrightarrow> arrays h' a = arrays h a)"
proof (cases st)
  case (HRoot fn arity)
  with assms show ?thesis
    by (auto dest: curried_h_frame)
next
  case (HArrow fn arity args)
  let ?h1 = "snd (alloc vs h)"
  let ?h2 = "snd (alloc (arrays ?h1 args @ arrays ?h1 (fresh h)) ?h1)"
  from HArrow assms have "curried_h fn arity (arrays ?h2 (fresh ?h1)) ?h2 s = Some (out, h', s')"
    by (simp add: alloc_def)
  then have "fresh h' = Suc (fresh ?h2) \<and> (\<forall>a. a \<noteq> fresh ?h2 \<longrightarrow> arrays h' a = arrays ?h2 a)"
    by (rule curried_h_frame)
  then show ?thesis
    by (simp add: alloc_def)
qed

lemma invoke_h_keeps_stage:
  assumes "allocated h st'" and "invoke_h st vs h s = Some (out, h', s')"
  shows "stage_in h' st' = stage_in h st' \<and> allocated h' st'"
  using assms(1) invoke_h_frame [OF assms(2)] by (cases st') auto

text \<open>Every stage the program holds has an allocated reference.\<close>

lemma curry_h_allocated:
  assumes "curry_h fn s = Some (Inr st, s')"
  shows "allocated h st \<and> curry fn s = Some (Inr (stage_in h st), s')"
  using assms by (auto simp add: curry_h_def curry_def split: option.splits sum.splits)

lemma curried_h_next_allocated:
  assumes "curried_h fn arity vs h s = Some (Inr (HNext st'), h', s')"
  shows "allocated h' st'"
  using assms
  by (auto simp add: curried_h_def alloc_def returning_h_no_stage
      split: option.splits sum.splits if_splits)

lemma invoke_h_next_allocated:
  assumes "invoke_h st vs h s = Some (Inr (HNext st'), h', s')"
  shows "allocated h' st'"
  using assms by (cases st) (auto simp add: alloc_def dest: curried_h_next_allocated)

text \<open>
  What a call returned reads the same after any later call: the stage it returned, if
  any, holds an allocated reference.
\<close>

lemma result_in_kept:
  assumes "invoke_h st vs h s = Some (res, h1, s1)"
    and "invoke_h st2 ws h1 s1' = Some (res2, h2, s2)"
  shows "result_in h2 res = result_in h1 res"
proof (cases res)
  case (Inl e)
  then show ?thesis by simp
next
  case (Inr out)
  show ?thesis
  proof (cases out)
    case (HResult r)
    with Inr show ?thesis by simp
  next
    case (HNext st')
    with Inr assms(1) have "allocated h1 st'"
      by (auto dest: invoke_h_next_allocated)
    then have "stage_in h2 st' = stage_in h1 st'"
      using assms(2) by (auto dest: invoke_h_keeps_stage)
    with Inr HNext show ?thesis by simp
  qed
qed

section \<open>The properties\<close>

subsection \<open>Full application\<close>

text \<open>
  C1. For a source function \<open>f\<close> of arity \<open>n\<close> and arguments \<open>a1, ..., an\<close>, applying
  the curried form to one argument at a time, \<^verbatim>\<open>curry(f)(a1)(a2)...(an)\<close>, does what the
  direct call \<^verbatim>\<open>f(a1, ..., an)\<close> does: the same result, the same effect on the state,
  and no argument is left over. The expression has at least the application to
  \<open>a1\<close>, so \<open>0 < n\<close>; without any application \<^verbatim>\<open>curry(f)\<close> is the root stage
  itself.
\<close>

theorem curry_one_at_a_time:
  assumes "length args = n" and "0 < n"
  shows "\<exists>root. curry (Function n body) s = Some (Inr root, s)
    \<and> chain root (one_at_a_time args) s = finished (call (Function n body) args s)"
proof -
  let ?root = "Root (Function n body) (Prim (Reached n))"
  have "args \<noteq> []"
    using assms by auto
  then have "chain ?root (one_at_a_time args) s =
      finished (call (stage_fn ?root) (accumulated ?root @ concat (one_at_a_time args)) s)"
    using assms by (intro chain_batches) (auto simp add: concat_one_at_a_time one_at_a_time_def)
  then show ?thesis
    by (simp add: curry_Function concat_one_at_a_time)
qed

text \<open>\<^verbatim>\<open>curry(addThreeNumbers)(1)(2)(3)\<close> is 6.\<close>

theorem curry_one_at_a_time_witness:
  "curry (Function 3 addThreeNumbers) () =
     Some (Inr (Root (Function 3 addThreeNumbers) (Prim (Reached 3))), ())
   \<and> chain (Root (Function 3 addThreeNumbers) (Prim (Reached 3))) (one_at_a_time [1, 2, 3]) () =
       Some ((Inr (Result (Num 6)), []), ())"
proof -
  have "\<exists>root. curry (Function 3 addThreeNumbers) () = Some (Inr root, ())
      \<and> chain root (one_at_a_time [1, 2, 3]) () =
          finished (call (Function 3 addThreeNumbers) [1, 2, 3] ())"
    by (rule curry_one_at_a_time) simp_all
  then show ?thesis
    by (simp add: curry_Function)
qed

text \<open>
  C2. For a source function \<open>f\<close> of arity \<open>n\<close> and arguments \<open>a1, ..., an\<close> grouped in
  any way into consecutive non-empty batches \<open>bs\<close>, supplying the batches to successive
  stages of \<^verbatim>\<open>curry(f)\<close> does what the direct call \<^verbatim>\<open>f(a1, ..., an)\<close> does.
\<close>

theorem curry_grouped:
  assumes "\<forall>b \<in> set bs. b \<noteq> []" and "bs \<noteq> []" and "length (concat bs) = n"
  shows "\<exists>root. curry (Function n body) s = Some (Inr root, s)
    \<and> chain root bs s = finished (call (Function n body) (concat bs) s)"
proof -
  let ?root = "Root (Function n body) (Prim (Reached n))"
  have "chain ?root bs s = finished (call (stage_fn ?root) (accumulated ?root @ concat bs) s)"
    using assms by (intro chain_batches) simp_all
  then show ?thesis
    by (simp add: curry_Function)
qed

text \<open>\<^verbatim>\<open>curry(addThreeNumbers)(1, 2)(3)\<close> is 6.\<close>

theorem curry_grouped_witness:
  "curry (Function 3 addThreeNumbers) () =
     Some (Inr (Root (Function 3 addThreeNumbers) (Prim (Reached 3))), ())
   \<and> chain (Root (Function 3 addThreeNumbers) (Prim (Reached 3))) [[1, 2], [3]] () =
       Some ((Inr (Result (Num 6)), []), ())"
proof -
  have "\<exists>root. curry (Function 3 addThreeNumbers) () = Some (Inr root, ())
      \<and> chain root [[1, 2], [3]] () =
          finished (call (Function 3 addThreeNumbers) (concat [[1, 2], [3]]) ())"
    by (rule curry_grouped) simp_all
  then show ?thesis
    by (simp add: curry_Function)
qed

subsection \<open>What the source function is called with\<close>

text \<open>
  C3. When a call of a stage brings the accumulated sequence to more values than the
  arity, the source function is called exactly once, with the whole accumulated
  sequence: the log of its calls grows by that one entry, and the entry has values
  beyond the first \<open>n\<close>.
\<close>

theorem extra_arguments_forwarded:
  assumes "stage_fn st = Function n (logged body)" and "stage_arity st = Prim (Reached n)"
    and "n < length (accumulated st @ xs)"
  shows "invoke st xs (s, log) =
      (case body (accumulated st @ xs) s of
         None \<Rightarrow> None
       | Some (r, s') \<Rightarrow> Some (Inr (Result r), s', log @ [accumulated st @ xs]))
    \<and> drop n (accumulated st @ xs) \<noteq> []"
proof -
  have "invoke st xs (s, log) =
      returning (call (Function n (logged body)) (accumulated st @ xs) (s, log))"
    using assms invoke_reaches [of st n xs "(s, log)"] by simp
  then have "invoke st xs (s, log) =
      (case body (accumulated st @ xs) s of
         None \<Rightarrow> None
       | Some (r, s') \<Rightarrow> Some (Inr (Result r), s', log @ [accumulated st @ xs]))"
    by (cases "body (accumulated st @ xs) s") (auto simp add: logged_def)
  moreover have "drop n (accumulated st @ xs) \<noteq> []"
    using assms(3) by (simp del: drop_append)
  ultimately show ?thesis
    by blast
qed

text \<open>\<^verbatim>\<open>curry(addThreeNumbers)(1, 2, 3, 999)\<close>: one call, with all four values.\<close>

theorem extra_arguments_forwarded_witness:
  "invoke (Root (Function 3 (logged addThreeNumbers)) (Prim (Reached 3))) [1, 2, 3, 999] ((), []) =
     Some (Inr (Result (Num 6)), (), [[1, 2, 3, 999]])"
proof -
  let ?st = "Root (Function 3 (logged addThreeNumbers)) (Prim (Reached 3))
    :: (int, unit \<times> int list list, number) stage"
  have "invoke ?st [1, 2, 3, 999] ((), []) =
      (case addThreeNumbers (accumulated ?st @ [1, 2, 3, 999]) () of
         None \<Rightarrow> None
       | Some (r, s') \<Rightarrow> Some (Inr (Result r), s', [] @ [accumulated ?st @ [1, 2, 3, 999]]))
    \<and> drop 3 (accumulated ?st @ [1, 2, 3, 999::int]) \<noteq> []"
    by (rule extra_arguments_forwarded) simp_all
  then show ?thesis
    by simp
qed

text \<open>
  C4, as stated, says that the source function is called with exactly the first
  \<open>arity\<close> values. It is not: with \<^verbatim>\<open>f = (a, ...rest) => rest.length\<close>, of arity 1,
  the call \<^verbatim>\<open>curry(f)(7, 8)\<close> calls \<open>f\<close> with the two values 7 and 8 and returns 1,
  where the call with the first value alone returns 0.
\<close>

theorem first_arity_values_counterexample:
  "invoke (Root (Function 1 (logged countRest)) (Prim (Reached 1))) [7, 8] ((), []) =
     Some (Inr (Result (Num 1)), (), [[7, 8]])
   \<and> [[7, 8::int]] \<noteq> [take 1 [7, 8]]
   \<and> call (Function 1 (logged countRest)) (take 1 [7, 8::int]) ((), []) =
       Some (Inr (Num 0), (), [[7]])"
  by (simp add: curried_Reached logged_def countRest_def)

text \<open>
  C4, amended. When the new accumulated sequence has at least \<open>arity\<close> values, the
  source function is called with the whole new accumulated sequence (its first
  \<open>arity\<close> values followed by every further value), and what the call does is what the
  stage does: it returns what the source function returns.
\<close>

theorem full_sequence_passed:
  assumes "stage_fn st = Function n body" and "stage_arity st = Prim (Reached n)"
    and "n \<le> length (accumulated st @ xs)"
  shows "invoke st xs s = returning (call (Function n body) (accumulated st @ xs) s)"
  using assms invoke_reaches [of st n xs s] by simp

theorem full_sequence_passed_witness:
  "invoke (Arrow (Function 3 addThreeNumbers) (Prim (Reached 3)) [1]) [2, 3] () =
     Some (Inr (Result (Num 6)), ())"
proof -
  let ?st = "Arrow (Function 3 addThreeNumbers) (Prim (Reached 3)) [1]
    :: (int, unit, number) stage"
  have "invoke ?st [2, 3] () =
      returning (call (Function 3 addThreeNumbers) (accumulated ?st @ [2, 3]) ())"
    by (rule full_sequence_passed) simp_all
  then show ?thesis
    by simp
qed

text \<open>
  C5. When the new accumulated sequence has fewer values than the arity, the call of the
  stage does not call the source function (the log of its calls and its state are as
  before, and the call returns whatever the source function would do) and returns a
  new stage that closes over the combined sequence.
\<close>

theorem short_invocation_returns_stage:
  assumes "stage_fn st = Function n (logged body)" and "stage_arity st = Prim (Reached n)"
    and "length (accumulated st @ xs) < n"
  shows "invoke st xs (s, log) =
    Some (Inr (Next (Arrow (Function n (logged body)) (Prim (Reached n))
      (accumulated st @ xs))), s, log)"
  using assms invoke_short [of st n xs "(s, log)"] by simp

theorem short_invocation_returns_stage_witness:
  "invoke (Arrow (Function 3 (logged addThreeNumbers)) (Prim (Reached 3)) [1]) [2] ((), []) =
     Some (Inr (Next (Arrow (Function 3 (logged addThreeNumbers)) (Prim (Reached 3)) [1, 2])),
       (), [])"
proof -
  let ?st = "Arrow (Function 3 (logged addThreeNumbers)) (Prim (Reached 3)) [1]
    :: (int, unit \<times> int list list, number) stage"
  have "invoke ?st [2] ((), []) =
      Some (Inr (Next (Arrow (Function 3 (logged addThreeNumbers)) (Prim (Reached 3))
        (accumulated ?st @ [2]))), (), [])"
    by (rule short_invocation_returns_stage) simp_all
  then show ?thesis
    by simp
qed

subsection \<open>Values that are not callable\<close>

text \<open>
  C6, as stated, says that \<^verbatim>\<open>curry\<close> fails at once for every value that is not
  callable. It does not: \<^verbatim>\<open>curry("ab")\<close> reads the length 2 and returns the root
  stage, the call of that stage with one argument returns the next stage, and the
  TypeError comes when this stage is called with the second argument.
\<close>

theorem curry_non_callable_counterexample:
  "curry (with_length (Prim (Reached 2)) :: (int, unit, number) callee) () =
     Some (Inr (Root (with_length (Prim (Reached 2))) (Prim (Reached 2))), ())
   \<and> invoke (Root (with_length (Prim (Reached 2)) :: (int, unit, number) callee)
         (Prim (Reached 2))) [1] () =
       Some (Inr (Next (Arrow (with_length (Prim (Reached 2))) (Prim (Reached 2)) [1])), ())
   \<and> invoke (Arrow (with_length (Prim (Reached 2)) :: (int, unit, number) callee)
         (Prim (Reached 2)) [1]) [2] () =
       Some (Inl TypeError, ())"
  by (simp add: curry_def curried_Reached with_length_def)

text \<open>
  C6, amended. \<^verbatim>\<open>curry\<close> makes no check that its argument is callable: on a value
  that is not callable it does what reading the value's \<^verbatim>\<open>length\<close> does. It fails
  at transformation time, before any stage is returned, exactly when that read throws,
  and with the error the read throws (a TypeError for \<^verbatim>\<open>null\<close> and
  \<^verbatim>\<open>undefined\<close>, the getter's error for a getter that throws); when the read returns,
  \<^verbatim>\<open>curry\<close> returns a root stage without an error. The TypeError of calling the
  value is deferred to the call of a stage at which the test
  \<^verbatim>\<open>args.length >= arity\<close> holds; a call of a stage at which the test does not hold
  returns the next stage, and one at which the test itself throws fails with that
  error.
\<close>

theorem curry_non_callable:
  "curry (NonCallable read) s =
     (case read s of
        None \<Rightarrow> None
      | Some (Inl e, s') \<Rightarrow> Some (Inl e, s')
      | Some (Inr arity, s') \<Rightarrow> Some (Inr (Root (NonCallable read) arity), s'))
   \<and> curry nullish s = Some (Inl TypeError, s)
   \<and> curry (throwing_getter e) s = Some (Inl (Thrown e), s)
   \<and> curry (with_length a) s = Some (Inr (Root (with_length a) a), s)
   \<and> invoke (Root (NonCallable read) arity) xs s =
       (case length_ge (length xs) arity s of
          None \<Rightarrow> None
        | Some (Inl e, s') \<Rightarrow> Some (Inl e, s')
        | Some (Inr enough, s') \<Rightarrow>
            if enough then Some (Inl TypeError, s')
            else Some (Inr (Next (Arrow (NonCallable read) arity xs)), s'))
   \<and> invoke (Arrow (NonCallable read) arity acc) xs s =
       (case length_ge (length (acc @ xs)) arity s of
          None \<Rightarrow> None
        | Some (Inl e, s') \<Rightarrow> Some (Inl e, s')
        | Some (Inr enough, s') \<Rightarrow>
            if enough then Some (Inl TypeError, s')
            else Some (Inr (Next (Arrow (NonCallable read) arity (acc @ xs))), s'))"
  by (simp add: curry_def curried_def nullish_def throwing_getter_def with_length_def
      split: option.splits sum.splits)

text \<open>
  Three more values: \<^verbatim>\<open>{ get length() { throw new RangeError("boom") } }\<close> fails in
  \<^verbatim>\<open>curry\<close> with the getter's error; \<^verbatim>\<open>{ length: null }\<close> gets a root
  stage whose first call throws the TypeError, whatever the arguments, since
  \<^verbatim>\<open>null\<close> converts to 0; \<^verbatim>\<open>{ length: Symbol() }\<close> gets a root stage whose calls
  throw the TypeError of the comparison.
\<close>

lemma curry_other_values:
  "curry (throwing_getter ''RangeError: boom'' :: (int, unit, number) callee) () =
     Some (Inl (Thrown ''RangeError: boom''), ())"
  "curry (with_length (Prim (Reached 0)) :: (int, unit, number) callee) () =
     Some (Inr (Root (with_length (Prim (Reached 0))) (Prim (Reached 0))), ())"
  "invoke (Root (with_length (Prim (Reached 0)) :: (int, unit, number) callee)
     (Prim (Reached 0))) xs () = Some (Inl TypeError, ())"
  "curry (with_length (Prim Uncomparable) :: (int, unit, number) callee) () =
     Some (Inr (Root (with_length (Prim Uncomparable)) (Prim Uncomparable)), ())"
  "invoke (Root (with_length (Prim Uncomparable) :: (int, unit, number) callee)
     (Prim Uncomparable)) xs () = Some (Inl TypeError, ())"
  by (simp_all add: curry_def curried_def with_length_def throwing_getter_def)

subsection \<open>Arity 0\<close>

text \<open>
  C7. For a source function of arity 0, the root stage called with any arguments \<open>xs\<close>,
  none included, calls the source function at once (one call, with \<open>xs\<close>) and returns
  its result. With \<^verbatim>\<open>z = () => 42\<close>, the call \<^verbatim>\<open>curry(z)()\<close> returns 42.
\<close>

theorem arity_zero_invokes_immediately:
  "curry (Function 0 body) s = Some (Inr (Root (Function 0 body) (Prim (Reached 0))), s)
   \<and> invoke (Root (Function 0 body) (Prim (Reached 0))) xs s =
       returning (call (Function 0 body) xs s)
   \<and> invoke (Root (Function 0 (logged body)) (Prim (Reached 0))) xs (s, log) =
       (case body xs s of
          None \<Rightarrow> None
        | Some (r, s') \<Rightarrow> Some (Inr (Result r), s', log @ [xs]))
   \<and> curry (Function 0 fortyTwo) t = Some (Inr (Root (Function 0 fortyTwo) (Prim (Reached 0))), t)
   \<and> invoke (Root (Function 0 fortyTwo) (Prim (Reached 0))) [] t = Some (Inr (Result (Num 42)), t)"
  by (simp add: curry_def curried_Reached fortyTwo_def logged_def split: option.splits)

subsection \<open>Calling one stage twice\<close>

text \<open>
  C8. In the store model, a stage is called with \<open>xs\<close> and later, in the store the
  first call left and in any state \<open>t\<close>, with \<open>ys\<close>; the two sequences are arbitrary,
  so each call may call the source function or return a further stage. Each call
  does what \<^verbatim>\<open>curried\<close> does on the stage's own sequence followed by that call's own
  arguments (by \<open>curried_Reached\<close>, what the source function does for them when they
  reach its arity, and the stage over them otherwise): nothing of \<open>xs\<close> reaches the
  second call. The first call leaves the sequence of the stage as it was, and the
  second call leaves as they were both that sequence and what the first call
  returned, the sequence of a stage it returned included.
\<close>

theorem stage_calls_independent:
  assumes "allocated h st" and "invoke_h st xs h s = Some (res1, h1, s1)"
  shows "completion_of (invoke_h st xs h s) =
      curried (stage_fn (stage_in h st)) (stage_arity (stage_in h st))
        (accumulated (stage_in h st) @ xs) s
    \<and> completion_of (invoke_h st ys h1 t) =
      curried (stage_fn (stage_in h st)) (stage_arity (stage_in h st))
        (accumulated (stage_in h st) @ ys) t
    \<and> stage_in h1 st = stage_in h st
    \<and> (case invoke_h st ys h1 t of
         None \<Rightarrow> True
       | Some (res2, h2, t2) \<Rightarrow>
           stage_in h2 st = stage_in h st \<and> result_in h2 res1 = result_in h1 res1)"
proof -
  have first: "completion_of (invoke_h st xs h s) =
      curried (stage_fn (stage_in h st)) (stage_arity (stage_in h st))
        (accumulated (stage_in h st) @ xs) s"
    using assms(1) by (simp add: invoke_h_simulates invoke_curried)
  have kept: "stage_in h1 st = stage_in h st \<and> allocated h1 st"
    using assms by (rule invoke_h_keeps_stage)
  then have second: "completion_of (invoke_h st ys h1 t) =
      curried (stage_fn (stage_in h st)) (stage_arity (stage_in h st))
        (accumulated (stage_in h st) @ ys) t"
    using invoke_h_simulates [of h1 st ys t] by (simp add: invoke_curried)
  have later: "stage_in h2 st = stage_in h st \<and> result_in h2 res1 = result_in h1 res1"
    if run2: "invoke_h st ys h1 t = Some (res2, h2, t2)" for res2 h2 t2
  proof -
    from kept run2 have "stage_in h2 st = stage_in h1 st"
      by (auto dest: invoke_h_keeps_stage)
    moreover from assms(2) run2 have "result_in h2 res1 = result_in h1 res1"
      by (rule result_in_kept)
    ultimately show ?thesis
      using kept by simp
  qed
  show ?thesis
    using first second kept later by (auto split: option.splits)
qed

text \<open>
  The stage \<^verbatim>\<open>st = curry(addThreeNumbers)(1)\<close>, called as \<^verbatim>\<open>st(2)\<close> and then as
  \<^verbatim>\<open>st(20, 30)\<close>: the first call returns the stage over \<open>[1, 2]\<close>, the second returns
  51, the stage still holds \<open>[1]\<close>, and the stage the first call returned still holds
  \<open>[1, 2]\<close> after the second call.
\<close>

theorem stage_calls_independent_witness:
  "\<exists>res1 h1.
     invoke_h (HArrow (Function 3 addThreeNumbers) (Prim (Reached 3)) 0) [2]
       (snd (alloc [1] empty_store)) () = Some (res1, h1, ())
     \<and> result_in h1 res1 =
         Inr (Next (Arrow (Function 3 addThreeNumbers) (Prim (Reached 3)) [1, 2]))
     \<and> completion_of
         (invoke_h (HArrow (Function 3 addThreeNumbers) (Prim (Reached 3)) 0) [20, 30] h1 ()) =
         Some (Inr (Result (Num 51)), ())
     \<and> stage_in h1
         (HArrow (Function 3 addThreeNumbers) (Prim (Reached 3)) 0 :: (int, unit, number) hstage) =
         Arrow (Function 3 addThreeNumbers) (Prim (Reached 3)) [1]
     \<and> (\<exists>res2 h2.
          invoke_h (HArrow (Function 3 addThreeNumbers) (Prim (Reached 3)) 0) [20, 30] h1 () =
            Some (res2, h2, ())
          \<and> result_in h2 res1 =
              Inr (Next (Arrow (Function 3 addThreeNumbers) (Prim (Reached 3)) [1, 2])))"
proof -
  let ?st = "HArrow (Function 3 addThreeNumbers) (Prim (Reached 3)) 0
    :: (int, unit, number) hstage"
  let ?h = "snd (alloc [1] empty_store) :: int store"
  let ?h1 = "snd (alloc [1, 2] (snd (alloc [1, 2] (snd (alloc [2] ?h)))))"
  let ?res1 = "Inr (HNext (HArrow (Function 3 addThreeNumbers) (Prim (Reached 3)) 3))
    :: error + (int, unit, number) houtcome"
  let ?h2 = "snd (alloc [1, 20, 30] (snd (alloc [1, 20, 30] (snd (alloc [20, 30] ?h1)))))"
  let ?res2 = "Inr (HResult (Num 51)) :: error + (int, unit, number) houtcome"
  have run1: "invoke_h ?st [2] ?h () = Some (?res1, ?h1, ())"
    by (simp add: curried_h_def alloc_def empty_store_def)
  have run2: "invoke_h ?st [20, 30] ?h1 () = Some (?res2, ?h2, ())"
    by (simp add: curried_h_def alloc_def empty_store_def)
  have "completion_of (invoke_h ?st [2] ?h ()) =
      curried (stage_fn (stage_in ?h ?st)) (stage_arity (stage_in ?h ?st))
        (accumulated (stage_in ?h ?st) @ [2]) ()
    \<and> completion_of (invoke_h ?st [20, 30] ?h1 ()) =
      curried (stage_fn (stage_in ?h ?st)) (stage_arity (stage_in ?h ?st))
        (accumulated (stage_in ?h ?st) @ [20, 30]) ()
    \<and> stage_in ?h1 ?st = stage_in ?h ?st
    \<and> (case invoke_h ?st [20, 30] ?h1 () of
         None \<Rightarrow> True
       | Some (res2, h2, t2) \<Rightarrow>
           stage_in h2 ?st = stage_in ?h ?st \<and> result_in h2 ?res1 = result_in ?h1 ?res1)"
    by (rule stage_calls_independent [OF _ run1]) (simp add: alloc_def empty_store_def)
  then have "result_in ?h1 ?res1 =
        Inr (Next (Arrow (Function 3 addThreeNumbers) (Prim (Reached 3)) [1, 2]))
    \<and> completion_of (invoke_h ?st [20, 30] ?h1 ()) = Some (Inr (Result (Num 51)), ())
    \<and> stage_in ?h1 ?st = Arrow (Function 3 addThreeNumbers) (Prim (Reached 3)) [1]
    \<and> result_in ?h2 ?res1 =
        Inr (Next (Arrow (Function 3 addThreeNumbers) (Prim (Reached 3)) [1, 2]))"
    unfolding run2 by (simp add: curried_Reached alloc_def empty_store_def)
  with run1 run2 show ?thesis
    by blast
qed

subsection \<open>Termination\<close>

text \<open>
  C9. A call of a stage returns, provided the call of the source function returns when
  the call of the stage makes it. The arity of the stage is a primitive value, as the
  length of every function is, so that the test is the engine's own comparison.
\<close>

theorem stage_invocation_terminates:
  assumes "stage_arity st = Prim p"
    and "prim_ge (length (accumulated st @ xs)) p = Inr True \<Longrightarrow>
      call (stage_fn st) (accumulated st @ xs) s \<noteq> None"
  shows "\<exists>c s'. invoke st xs s = Some (c, s')"
proof (cases "prim_ge (length (accumulated st @ xs)) p")
  case (Inl e)
  with assms(1) show ?thesis
    by (simp add: invoke_curried curried_def)
next
  case (Inr enough)
  show ?thesis
  proof (cases enough)
    case True
    with Inr assms(2) obtain c s' where
      "call (stage_fn st) (accumulated st @ xs) s = Some (c, s')"
      by auto
    with True Inr assms(1) show ?thesis
      by (cases c) (simp_all add: invoke_curried curried_def)
  next
    case False
    with Inr assms(1) show ?thesis
      by (simp add: invoke_curried curried_def)
  qed
qed

theorem stage_invocation_terminates_witness:
  "\<exists>c s'. invoke (Arrow (Function 3 addThreeNumbers) (Prim (Reached 3)) [1]) [2, 3] () =
     Some (c, s')"
  by (rule stage_invocation_terminates [where p = "Reached 3"]) simp_all

subsection \<open>A call without arguments\<close>

text \<open>
  C10. A stage whose accumulated sequence is shorter than the arity accepts a call with
  no arguments: the call returns, without an error, a new stage over the same
  sequence, and that stage does what the called stage does, in one call and in every
  chain of calls.
\<close>

theorem zero_arguments_no_op:
  assumes "stage_arity st = Prim (Reached n)" and "length (accumulated st) < n"
  shows "invoke st [] s =
      Some (Inr (Next (Arrow (stage_fn st) (Prim (Reached n)) (accumulated st))), s)
    \<and> invoke (Arrow (stage_fn st) (Prim (Reached n)) (accumulated st)) xs t = invoke st xs t
    \<and> chain (Arrow (stage_fn st) (Prim (Reached n)) (accumulated st)) (b # bs) t =
        chain st (b # bs) t"
  using assms by (simp add: invoke_curried curried_Reached)

theorem zero_arguments_no_op_witness:
  "invoke (Root (Function 3 addThreeNumbers) (Prim (Reached 3))) [] () =
     Some (Inr (Next (Arrow (Function 3 addThreeNumbers) (Prim (Reached 3)) [])), ())
   \<and> invoke (Arrow (Function 3 addThreeNumbers) (Prim (Reached 3)) []) [1, 2, 3] () =
       invoke (Root (Function 3 addThreeNumbers) (Prim (Reached 3))) [1, 2, 3] ()
   \<and> chain (Arrow (Function 3 addThreeNumbers) (Prim (Reached 3)) []) [[1], [2, 3]] () =
       chain (Root (Function 3 addThreeNumbers) (Prim (Reached 3))) [[1], [2, 3]] ()"
proof -
  let ?st = "Root (Function 3 addThreeNumbers) (Prim (Reached 3)) :: (int, unit, number) stage"
  have "invoke ?st [] () =
      Some (Inr (Next (Arrow (stage_fn ?st) (Prim (Reached 3)) (accumulated ?st))), ())
    \<and> invoke (Arrow (stage_fn ?st) (Prim (Reached 3)) (accumulated ?st)) [1, 2, 3] () =
        invoke ?st [1, 2, 3] ()
    \<and> chain (Arrow (stage_fn ?st) (Prim (Reached 3)) (accumulated ?st)) ([1] # [[2, 3]]) () =
        chain ?st ([1] # [[2, 3]]) ()"
    by (rule zero_arguments_no_op) simp_all
  then show ?thesis
    by simp
qed

end
